theory Spec2Isabelle
  imports Main "HOL-Library.Sublist"
begin

section \<open>JavaScript strings\<close>

text \<open>
  A JavaScript string is a sequence of UTF-16 code units, and \<open>str.length\<close> counts them.
  The texts the detector itself handles (commands, responses, table keys, the upload
  template) are modelled as \<open>string\<close>, a list of code units below 256. Where a code unit
  above that matters, a string is the list of its code units as numbers below 65536
  (\<open>units\<close> embeds the first kind in the second). \<open>includes\<close> and \<open>substring\<close> work on
  both; \<open>trim\<close> and \<open>toLowerCase\<close> are written out on \<open>string\<close>.
\<close>

abbreviation LF :: char where "LF \<equiv> CHR 0x0A"
abbreviation CR :: char where "CR \<equiv> CHR 0x0D"

text \<open>\<open>s.includes(t)\<close>: \<open>t\<close> occurs in \<open>s\<close> as a contiguous run.\<close>

fun js_includes :: "'a list \<Rightarrow> 'a list \<Rightarrow> bool" where
  "js_includes [] t = (t = [])"
| "js_includes (c # cs) t = (prefix t (c # cs) \<or> js_includes cs t)"

text \<open>\<open>s.substring(a, b)\<close>: both indices are clamped to the length, and swapped
  when \<open>a > b\<close>.\<close>

definition substring :: "'a list \<Rightarrow> nat \<Rightarrow> nat \<Rightarrow> 'a list" where
  "substring s a b =
     (let a' = min a (length s); b' = min b (length s)
      in take (max a' b' - min a' b') (drop (min a' b') s))"

text \<open>\<open>s.trim()\<close> strips white space and line terminators at both ends: tab, line feed,
  vertical tab, form feed, carriage return, space and no-break space.\<close>

definition isWhiteSpace :: "char \<Rightarrow> bool" where
  "isWhiteSpace c =
     (c = CHR 0x09 \<or> c = CHR 0x0A \<or> c = CHR 0x0B \<or> c = CHR 0x0C \<or> c = CHR 0x0D
      \<or> c = CHR 0x20 \<or> c = CHR 0xA0)"

definition trim :: "string \<Rightarrow> string" where
  "trim s = rev (dropWhile isWhiteSpace (rev (dropWhile isWhiteSpace s)))"

text \<open>\<open>s.toLowerCase()\<close>: the letters \<open>A\<close> to \<open>Z\<close>, and the capital letters of the
  Latin-1 range, move up by 32.\<close>

definition toLowerChar :: "char \<Rightarrow> char" where
  "toLowerChar c =
     (let n = (of_char c :: nat)
      in if (65 \<le> n \<and> n \<le> 90) \<or> (192 \<le> n \<and> n \<le> 222 \<and> n \<noteq> 215)
         then char_of (n + 32) else c)"

definition toLowerCase :: "string \<Rightarrow> string" where
  "toLowerCase s = map toLowerChar s"

text \<open>The code units of a \<open>string\<close>, as numbers.\<close>

definition units :: "string \<Rightarrow> nat list" where
  "units s = map of_char s"

text \<open>
  \<open>new TextEncoder().encode(s)\<close> on the code units of \<open>s\<close>: a high surrogate followed by a
  low surrogate is one code point above \<open>0xFFFF\<close>, any other surrogate is replaced by
  \<open>U+FFFD\<close>, every other code unit is its own code point; each code point is written in
  UTF-8, in one to four bytes.
\<close>

definition isHighSurrogate :: "nat \<Rightarrow> bool" where
  "isHighSurrogate c = (0xD800 \<le> c \<and> c \<le> 0xDBFF)"

definition isLowSurrogate :: "nat \<Rightarrow> bool" where
  "isLowSurrogate c = (0xDC00 \<le> c \<and> c \<le> 0xDFFF)"

definition utf8 :: "nat \<Rightarrow> nat list" where
  "utf8 cp =
     (if cp < 0x80 then [cp]
      else if cp < 0x800 then [0xC0 + cp div 64, 0x80 + cp mod 64]
      else if cp < 0x10000 then [0xE0 + cp div 4096, 0x80 + (cp div 64) mod 64, 0x80 + cp mod 64]
      else [0xF0 + cp div 262144, 0x80 + (cp div 4096) mod 64, 0x80 + (cp div 64) mod 64,
            0x80 + cp mod 64])"

fun TextEncoder_encode :: "nat list \<Rightarrow> nat list" where
  "TextEncoder_encode [] = []"
| "TextEncoder_encode [c] =
     (if isHighSurrogate c \<or> isLowSurrogate c then utf8 0xFFFD else utf8 c)"
| "TextEncoder_encode (c # d # rest) =
     (if isHighSurrogate c \<and> isLowSurrogate d
      then utf8 (0x10000 + (c - 0xD800) * 0x400 + (d - 0xDC00)) @ TextEncoder_encode rest
      else if isHighSurrogate c \<or> isLowSurrogate c
      then utf8 0xFFFD @ TextEncoder_encode (d # rest)
      else utf8 c @ TextEncoder_encode (d # rest))"

text \<open>
  The encoder on a \<open>string\<close>, whose code units are below 256 and so never surrogates: a
  code unit below 128 is one byte, a code unit from 128 to 255 two bytes.
\<close>

definition encodeUnit :: "char \<Rightarrow> nat list" where
  "encodeUnit c =
     (let n = (of_char c :: nat)
      in if n < 128 then [n] else [192 + n div 64, 128 + n mod 64])"

definition encode :: "string \<Rightarrow> nat list" where
  "encode s = concat (map encodeUnit s)"

section \<open>Upload: wrapping and chunking\<close>

text \<open>The \<open>options\<close> argument of \<open>wrapCodeForUpload\<close>; \<open>libraries\<close> is \<open>None\<close> when the
  property is absent (\<open>uploadCode\<close> defaults \<open>options\<close> to \<open>{}\<close>).\<close>

record upload_options =
  libraries :: "string option"

definition default_options :: upload_options where
  "default_options = \<lparr>libraries = None\<rparr>"

text \<open>\<open>options.libraries || ''\<close>: an absent or empty value gives the empty string.\<close>

definition libraries_or_empty :: "upload_options \<Rightarrow> string" where
  "libraries_or_empty options = (case libraries options of None \<Rightarrow> [] | Some l \<Rightarrow> l)"

text \<open>The two parts of the template literal around \<open>${code}\<close>.\<close>

definition template_head :: "upload_options \<Rightarrow> string" where
  "template_head options =
     ''// Uploaded by VitaCoder Pro'' @ [LF] @
     libraries_or_empty options @ [LF] @
     [LF] @
     ''void setup() {'' @ [LF] @
     ''    Serial.begin(9600);'' @ [LF] @
     ''    ''"

definition template_tail :: string where
  "template_tail =
     [LF] @
     ''}'' @ [LF] @
     [LF] @
     ''void loop() {'' @ [LF] @
     ''    // Your code runs here'' @ [LF] @
     ''}''"

definition wrapCodeForUpload :: "string \<Rightarrow> upload_options \<Rightarrow> string" where
  "wrapCodeForUpload code options =
     (if js_includes code ''void setup()'' \<and> js_includes code ''void loop()''
      then code
      else template_head options @ code @ template_tail)"

text \<open>
  \<open>chunkString\<close>: the loop \<open>for (i = 0; i < str.length; i += chunkSize)\<close>. With
  \<open>chunkSize = 0\<close> and a non-empty string the loop never ends, which is the value
  \<open>None\<close>; the guard \<open>0 < chunkSize\<close> in \<open>chunkLoop\<close> only serves its termination.
\<close>

function chunkLoop :: "'a list \<Rightarrow> nat \<Rightarrow> nat \<Rightarrow> 'a list list \<Rightarrow> 'a list list" where
  "chunkLoop str chunkSize i chunks =
     (if i < length str \<and> 0 < chunkSize
      then chunkLoop str chunkSize (i + chunkSize) (chunks @ [substring str i (i + chunkSize)])
      else chunks)"
  by pat_completeness auto
termination
  by (relation "measure (\<lambda>(str, chunkSize, i, chunks). length str - i)") auto

definition chunkString :: "'a list \<Rightarrow> nat \<Rightarrow> 'a list list option" where
  "chunkString str chunkSize =
     (if chunkSize = 0 \<and> str \<noteq> [] then None else Some (chunkLoop str chunkSize 0 []))"

section \<open>The serial port and the detector\<close>

text \<open>A thrown JavaScript error, with its message.\<close>

datatype error = Error string

text \<open>\<open>port.getInfo()\<close>: each identifier is \<open>None\<close> when the property is \<open>undefined\<close>.\<close>

record port_info =
  usbVendorId :: "nat option"
  usbProductId :: "nat option"

text \<open>
  Every operation performed on the port and its streams is recorded, in order, in the
  detector's \<open>trace\<close>. A write records the bytes handed to \<open>writer.write\<close>.
\<close>

datatype io_event =
    PortClose
  | PortOpen nat
  | GetWriter
  | WriterWrite "nat list"
  | WriterRelease
  | GetReader
  | ReaderRead
  | ReaderCancel
  | ReaderRelease

text \<open>What one \<open>reader.read()\<close> gives: a decoded chunk, \<open>done\<close>, or a rejection.\<close>

datatype read_result = Chunk string | StreamDone | ReadError error

text \<open>
  A port is the environment of the detector: what it answers may depend on everything done
  to it so far. \<open>None\<close> is success, \<open>Some e\<close> the error thrown. \<open>read_results\<close> lists the
  reads that resolve, in order, once a reader is obtained; a read past the end of that list
  stays pending.
\<close>

record port =
  getInfo :: port_info
  close_result :: "io_event list \<Rightarrow> error option"
  open_result :: "io_event list \<Rightarrow> nat \<Rightarrow> error option"
  getWriter_result :: "io_event list \<Rightarrow> error option"
  write_result :: "io_event list \<Rightarrow> nat list \<Rightarrow> error option"
  getReader_result :: "io_event list \<Rightarrow> error option"
  read_results :: "io_event list \<Rightarrow> read_result list"

text \<open>An entry of \<open>arduinoSignatures.products\<close>; \<open>sig_product = None\<close> is \<open>product: null\<close>.\<close>

record signature =
  sig_vendor :: nat
  sig_product :: "nat option"
  sig_name :: string

definition arduinoSignatures_vendors :: "nat list" where
  "arduinoSignatures_vendors = [0x2341, 0x2A03, 0x1B4F, 0x0403]"

text \<open>\<open>Object.entries\<close> walks the string keys in insertion order.\<close>

definition arduinoSignatures_products :: "(string \<times> signature) list" where
  "arduinoSignatures_products =
     [(''UNO'', \<lparr>sig_vendor = 0x2341, sig_product = Some 0x0043, sig_name = ''Arduino Uno''\<rparr>),
      (''UNO_R3'', \<lparr>sig_vendor = 0x2341, sig_product = Some 0x0043, sig_name = ''Arduino Uno R3''\<rparr>),
      (''NANO'', \<lparr>sig_vendor = 0x2341, sig_product = Some 0x0010, sig_name = ''Arduino Nano''\<rparr>),
      (''NANO_CLONE'', \<lparr>sig_vendor = 0x1A86, sig_product = Some 0x7523, sig_name = ''Arduino Nano (CH340)''\<rparr>),
      (''MEGA'', \<lparr>sig_vendor = 0x2341, sig_product = Some 0x0010, sig_name = ''Arduino Mega''\<rparr>),
      (''MEGA2560'', \<lparr>sig_vendor = 0x2341, sig_product = Some 0x0042, sig_name = ''Arduino Mega 2560''\<rparr>),
      (''LEONARDO'', \<lparr>sig_vendor = 0x2341, sig_product = Some 0x0036, sig_name = ''Arduino Leonardo''\<rparr>),
      (''ESP32'', \<lparr>sig_vendor = 0x10C4, sig_product = Some 0xEA60, sig_name = ''ESP32 Dev Module''\<rparr>),
      (''GENERIC'', \<lparr>sig_vendor = 0x2341, sig_product = None, sig_name = ''Generic Arduino''\<rparr>)]"

text \<open>
  An observer: a label (the identity of the function object) and what a call does with
  its argument, \<open>None\<close> for a normal return and \<open>Some e\<close> for a throw.
\<close>

datatype 'a callback = Callback nat "'a \<Rightarrow> error option"

text \<open>A \<open>Set\<close> keeps insertion order and holds each element once.\<close>

definition set_add :: "'a \<Rightarrow> 'a list \<Rightarrow> 'a list" where
  "set_add x xs = (if x \<in> set xs then xs else xs @ [x])"

text \<open>The reader or writer object held in a field.\<close>

datatype lock = Lock

text \<open>The object \<open>quickIdentifyPort\<close> returns.\<close>

record quick_device =
  qd_id :: string
  qd_model :: string
  qd_name :: string
  qd_vendorId :: "nat option"
  qd_productId :: "nat option"
  qd_connected :: bool

text \<open>
  The fields of \<open>USBDetector\<close>, with the trace of port operations and the log of callback
  invocations (callback and argument, in order) as the observable effects.
\<close>

record detector =
  port :: "port option"
  reader :: "lock option"
  writer :: "lock option"
  isConnected :: bool
  isScanning :: bool
  detectedDevices :: "(string \<times> quick_device) list"
  connectionCallbacks :: "(string \<times> port option) callback list"
  disconnectionCallbacks :: "unit callback list"
  trace :: "io_event list"
  connectionCalls :: "((string \<times> port option) callback \<times> (string \<times> port option)) list"
  disconnectionCalls :: "(unit callback \<times> unit) list"

text \<open>The constructor.\<close>

definition USBDetector :: detector where
  "USBDetector =
     \<lparr>port = None, reader = None, writer = None, isConnected = False, isScanning = False,
      detectedDevices = [], connectionCallbacks = [], disconnectionCallbacks = [],
      trace = [], connectionCalls = [], disconnectionCalls = []\<rparr>"

subsection \<open>Port primitives\<close>

definition emit :: "io_event \<Rightarrow> detector \<Rightarrow> detector" where
  "emit ev s = s\<lparr>trace := trace s @ [ev]\<rparr>"

definition outcome :: "error option \<Rightarrow> error + unit" where
  "outcome r = (case r of None \<Rightarrow> Inr () | Some e \<Rightarrow> Inl e)"

definition port_close :: "port \<Rightarrow> detector \<Rightarrow> (error + unit) \<times> detector" where
  "port_close p s = (outcome (close_result p (trace s)), emit PortClose s)"

definition port_open :: "port \<Rightarrow> nat \<Rightarrow> detector \<Rightarrow> (error + unit) \<times> detector" where
  "port_open p baudRate s = (outcome (open_result p (trace s) baudRate), emit (PortOpen baudRate) s)"

definition writable_getWriter :: "port \<Rightarrow> detector \<Rightarrow> (error + unit) \<times> detector" where
  "writable_getWriter p s = (outcome (getWriter_result p (trace s)), emit GetWriter s)"

definition writer_write :: "port \<Rightarrow> nat list \<Rightarrow> detector \<Rightarrow> (error + unit) \<times> detector" where
  "writer_write p bytes s = (outcome (write_result p (trace s) bytes), emit (WriterWrite bytes) s)"

definition readable_getReader :: "port \<Rightarrow> detector \<Rightarrow> (error + unit) \<times> detector" where
  "readable_getReader p s = (outcome (getReader_result p (trace s)), emit GetReader s)"

subsection \<open>Opening, reading and sending a command\<close>

definition openPort :: "nat \<Rightarrow> detector \<Rightarrow> (error + unit) \<times> detector" where
  "openPort baudRate s =
     (case port s of
        None \<Rightarrow> (Inl (Error ''No port selected''), s)
      | Some p \<Rightarrow> port_open p baudRate s)"

text \<open>
  The \<open>while (true)\<close> loop of \<open>readResponse\<close> over the reads that resolve. \<open>None\<close> is a read
  that stays pending: the loop has not returned.
\<close>

fun readLoop :: "string \<Rightarrow> read_result list \<Rightarrow> detector \<Rightarrow> (error + string) option \<times> detector" where
  "readLoop response [] s = (None, emit ReaderRead s)"
| "readLoop response (r # rs) s =
     (case r of
        StreamDone \<Rightarrow> (Some (Inr response), emit ReaderRead s)
      | ReadError e \<Rightarrow> (Some (Inl e), emit ReaderRead s)
      | Chunk v \<Rightarrow>
          (if js_includes (response @ v) [LF] \<or> 1024 < length (response @ v)
           then (Some (Inr (response @ v)), emit ReaderRead s)
           else readLoop (response @ v) rs (emit ReaderRead s)))"

definition readResponse :: "detector \<Rightarrow> (error + string) option \<times> detector" where
  "readResponse s =
     (case port s of
        None \<Rightarrow> (Some (Inl (Error ''Port not open'')), s)
      | Some p \<Rightarrow>
          (case readable_getReader p s of
             (Inl e, s1) \<Rightarrow> (Some (Inl e), s1)
           | (Inr _, s1) \<Rightarrow>
               (case readLoop [] (read_results p (trace s1)) (s1\<lparr>reader := Some Lock\<rparr>) of
                  (None, s2) \<Rightarrow> (None, s2)
                | (Some (Inl e), s2) \<Rightarrow> (Some (Inl e), emit ReaderRelease s2)
                | (Some (Inr response), s2) \<Rightarrow> (Some (Inr (trim response)), emit ReaderRelease s2))))"

text \<open>
  \<open>sendCommand\<close>: the timer rejects with \<open>Command timeout\<close> exactly when \<open>readResponse\<close> has
  not settled, so the length of the timeout shows only in which reads resolve. When
  \<open>write\<close> throws, the writer's lock is not released.
\<close>

definition sendCommand :: "string \<Rightarrow> nat \<Rightarrow> detector \<Rightarrow> (error + string) \<times> detector" where
  "sendCommand command timeout s =
     (case port s of
        None \<Rightarrow> (Inl (Error ''Port not open''), s)
      | Some p \<Rightarrow>
          (case writable_getWriter p s of
             (Inl e, s1) \<Rightarrow> (Inl e, s1)
           | (Inr _, s1) \<Rightarrow>
               (case writer_write p (encode command) (s1\<lparr>writer := Some Lock\<rparr>) of
                  (Inl e, s2) \<Rightarrow> (Inl e, s2)
                | (Inr _, s2) \<Rightarrow>
                    (case readResponse (emit WriterRelease s2) of
                       (None, s3) \<Rightarrow> (Inl (Error ''Command timeout''), s3)
                     | (Some r, s3) \<Rightarrow> (r, s3)))))"

subsection \<open>Identification\<close>

text \<open>Truthiness of a number that may be \<open>undefined\<close>.\<close>

definition truthy :: "nat option \<Rightarrow> bool" where
  "truthy v = (case v of None \<Rightarrow> False | Some n \<Rightarrow> n \<noteq> 0)"

text \<open>The test both table walks apply to an entry.\<close>

definition signature_matches :: "port_info \<Rightarrow> signature \<Rightarrow> bool" where
  "signature_matches info sg =
     (usbVendorId info = Some (sig_vendor sg)
      \<and> (sig_product sg = None \<or> usbProductId info = sig_product sg))"

definition identifyByUSBInfo :: "detector \<Rightarrow> (error + string option) \<times> detector" where
  "identifyByUSBInfo s =
     (case port s of
        None \<Rightarrow> (Inl (Error ''TypeError''), s)
      | Some p \<Rightarrow>
          (if truthy (usbVendorId (getInfo p)) \<and> truthy (usbProductId (getInfo p))
           then (case find (\<lambda>(key, sg). signature_matches (getInfo p) sg) arduinoSignatures_products of
                   Some (key, sg) \<Rightarrow> (Inr (Some (toLowerCase key)), s)
                 | None \<Rightarrow> (Inr None, s))
           else (Inr None, s)))"

definition mapResponseToModel :: "string \<Rightarrow> string" where
  "mapResponseToModel response =
     (let lowerResponse = toLowerCase response
      in if js_includes lowerResponse ''esp32'' then ''esp32''
         else if js_includes lowerResponse ''uno'' then ''uno''
         else if js_includes lowerResponse ''nano'' then ''nano''
         else if js_includes lowerResponse ''mega'' then ''mega''
         else if js_includes lowerResponse ''leonardo'' then ''leonardo''
         else ''generic'')"

definition commands :: "(string \<times> string \<times> nat) list" where
  "commands =
     [(''AT+GMR'' @ [CR, LF], ''ESP32'', 1000),
      (''ATI'' @ [CR, LF], ''Arduino'', 1000),
      ([CR, LF], ''ready'', 500)]"

fun commandLoop :: "(string \<times> string \<times> nat) list \<Rightarrow> detector \<Rightarrow> (error + string option) \<times> detector" where
  "commandLoop [] s = (Inr None, s)"
| "commandLoop ((command, expected, timeout) # rest) s =
     (case sendCommand command timeout s of
        (Inr response, s') \<Rightarrow>
          (if response \<noteq> [] \<and> js_includes response expected
           then (Inr (Some (mapResponseToModel response)), s')
           else commandLoop rest s')
      | (Inl e, s') \<Rightarrow> commandLoop rest s')"

definition identifyByCommandResponse :: "detector \<Rightarrow> (error + string option) \<times> detector" where
  "identifyByCommandResponse s = commandLoop commands s"

definition commonBaudRates :: "nat list" where
  "commonBaudRates = [9600, 115200, 57600, 38400, 19200, 14400]"

text \<open>The body of the \<open>try\<close> in \<open>detectBaudRate\<close>, for one rate.\<close>

definition tryBaudRate :: "nat \<Rightarrow> detector \<Rightarrow> (error + string) \<times> detector" where
  "tryBaudRate baudRate s =
     (case port s of
        None \<Rightarrow> (Inl (Error ''TypeError''), s)
      | Some p \<Rightarrow>
          (case port_close p s of
             (Inl e, s1) \<Rightarrow> (Inl e, s1)
           | (Inr _, s1) \<Rightarrow>
               (case openPort baudRate s1 of
                  (Inl e, s2) \<Rightarrow> (Inl e, s2)
                | (Inr _, s2) \<Rightarrow> sendCommand [CR, LF] 500 s2)))"

fun baudLoop :: "nat list \<Rightarrow> detector \<Rightarrow> nat option \<times> detector" where
  "baudLoop [] s = (None, s)"
| "baudLoop (baudRate # rest) s =
     (case tryBaudRate baudRate s of
        (Inr response, s') \<Rightarrow> (Some baudRate, s')
      | (Inl e, s') \<Rightarrow> baudLoop rest s')"

definition detectBaudRate :: "detector \<Rightarrow> nat option \<times> detector" where
  "detectBaudRate s = baudLoop commonBaudRates s"

text \<open>\<open>behavioralGuess\<close>: in the source the three product tests stand under the test of
  the vendor \<open>0x2341\<close>; a miss falls through to the two vendor tests that follow.\<close>

definition behavioralGuess :: "detector \<Rightarrow> error + string" where
  "behavioralGuess s =
     (case port s of
        None \<Rightarrow> Inl (Error ''TypeError'')
      | Some p \<Rightarrow>
          (let info = getInfo p
           in if usbVendorId info = Some 0x2341 \<and> usbProductId info = Some 0x0043 then Inr ''uno''
              else if usbVendorId info = Some 0x2341 \<and> usbProductId info = Some 0x0042 then Inr ''mega2560''
              else if usbVendorId info = Some 0x2341 \<and> usbProductId info = Some 0x0036 then Inr ''leonardo''
              else if usbVendorId info = Some 0x1A86 then Inr ''nano''
              else if usbVendorId info = Some 0x10C4 then Inr ''esp32''
              else Inr ''generic''))"

definition identifyByBehavior :: "detector \<Rightarrow> (error + string option) \<times> detector" where
  "identifyByBehavior s =
     (case sendCommand [CR, LF] 500 s of
        (Inl e, s1) \<Rightarrow> (Inl e, s1)
      | (Inr _, s1) \<Rightarrow>
          (case detectBaudRate s1 of
             (detectedBaud, s2) \<Rightarrow>
               (case behavioralGuess s2 of
                  Inl e \<Rightarrow> (Inl e, s2)
                | Inr guess \<Rightarrow> (Inr (Some guess), s2))))"

definition fallbackIdentification :: "detector \<Rightarrow> (error + string) \<times> detector" where
  "fallbackIdentification s =
     (case port s of
        None \<Rightarrow> (Inl (Error ''TypeError''), s)
      | Some p \<Rightarrow>
          (if usbVendorId (getInfo p) = Some 0x2341 then (Inr ''uno'', s)
           else if usbVendorId (getInfo p) = Some 0x1A86 then (Inr ''nano'', s)
           else if usbVendorId (getInfo p) = Some 0x10C4 then (Inr ''esp32'', s)
           else (Inr ''generic'', s)))"

text \<open>
  The loop over the three methods: a method that throws, or returns \<open>null\<close> or the empty
  string, leaves the loop running.
\<close>

fun methodLoop ::
  "(detector \<Rightarrow> (error + string option) \<times> detector) list \<Rightarrow> detector \<Rightarrow> string option \<times> detector" where
  "methodLoop [] s = (None, s)"
| "methodLoop (method # rest) s =
     (case method s of
        (Inr (Some model), s') \<Rightarrow> (if model \<noteq> [] then (Some model, s') else methodLoop rest s')
      | (Inr None, s') \<Rightarrow> methodLoop rest s'
      | (Inl e, s') \<Rightarrow> methodLoop rest s')"

definition methods :: "(detector \<Rightarrow> (error + string option) \<times> detector) list" where
  "methods = [identifyByUSBInfo, identifyByCommandResponse, identifyByBehavior]"

definition identifyModel :: "detector \<Rightarrow> (error + string) \<times> detector" where
  "identifyModel s =
     (case port s of
        None \<Rightarrow> (Inl (Error ''Port not open''), s)
      | Some p \<Rightarrow>
          (case methodLoop methods s of
             (Some model, s1) \<Rightarrow> (Inr model, s1)
           | (None, s1) \<Rightarrow>
               (case fallbackIdentification s1 of
                  (Inr model, s2) \<Rightarrow> (Inr model, s2)
                | (Inl e, s2) \<Rightarrow> (Inr ''unknown'', s2))))"

text \<open>Decimal text of a number, as a template literal prints it.\<close>

fun decimal :: "nat \<Rightarrow> string" where
  "decimal n = (if n < 10 then [char_of (48 + n)] else decimal (n div 10) @ [char_of (48 + n mod 10)])"

definition template_number :: "nat option \<Rightarrow> string" where
  "template_number v = (case v of None \<Rightarrow> ''undefined'' | Some n \<Rightarrow> decimal n)"

definition quickIdentifyPort :: "port \<Rightarrow> quick_device option" where
  "quickIdentifyPort p =
     (let info = getInfo p
      in case find (\<lambda>(model, sg). signature_matches info sg) arduinoSignatures_products of
           Some (model, sg) \<Rightarrow>
             Some \<lparr>qd_id = template_number (usbVendorId info) @ ''-'' @ template_number (usbProductId info),
                   qd_model = toLowerCase model,
                   qd_name = sig_name sg,
                   qd_vendorId = usbVendorId info,
                   qd_productId = usbProductId info,
                   qd_connected = False\<rparr>
         | None \<Rightarrow> None)"

subsection \<open>Upload\<close>

text \<open>The \<open>for\<close> loop of \<open>sendCodeChunked\<close>: a write that throws ends it.\<close>

fun writeChunks :: "port \<Rightarrow> string list \<Rightarrow> detector \<Rightarrow> (error + unit) \<times> detector" where
  "writeChunks p [] s = (Inr (), s)"
| "writeChunks p (chunk # rest) s =
     (case writer_write p (encode chunk) s of
        (Inl e, s') \<Rightarrow> (Inl e, s')
      | (Inr _, s') \<Rightarrow> writeChunks p rest s')"

text \<open>\<open>None\<close> stands for a call that does not return (\<open>chunkString\<close> looping).\<close>

definition sendCodeChunked :: "string \<Rightarrow> detector \<Rightarrow> ((error + unit) \<times> detector) option" where
  "sendCodeChunked code s =
     (case chunkString code 64 of
        None \<Rightarrow> None
      | Some chunks \<Rightarrow>
          Some (case port s of
                  None \<Rightarrow> (Inl (Error ''TypeError''), s)
                | Some p \<Rightarrow>
                    (case writable_getWriter p s of
                       (Inl e, s1) \<Rightarrow> (Inl e, s1)
                     | (Inr _, s1) \<Rightarrow>
                         (case writeChunks p chunks (s1\<lparr>writer := Some Lock\<rparr>) of
                            (r, s2) \<Rightarrow> (r, emit WriterRelease s2)))))"

definition uploadCode :: "string \<Rightarrow> upload_options \<Rightarrow> detector \<Rightarrow> ((error + bool) \<times> detector) option" where
  "uploadCode code options s =
     (if \<not> isConnected s then Some (Inl (Error ''No Arduino connected''), s)
      else (case sendCodeChunked (wrapCodeForUpload code options) s of
              None \<Rightarrow> None
            | Some (Inl e, s') \<Rightarrow> Some (Inl e, s')
            | Some (Inr _, s') \<Rightarrow> Some (Inr True, s')))"

subsection \<open>Observers\<close>

text \<open>
  Calling an observer. The observers are opaque functions: they return or throw, and do
  not reach back into the detector.
\<close>

fun invoke :: "'a callback \<Rightarrow> 'a \<Rightarrow> error + unit" where
  "invoke (Callback label f) a = (case f a of None \<Rightarrow> Inr () | Some e \<Rightarrow> Inl e)"

text \<open>
  \<open>callbacks.forEach(callback => { try { callback(...) } catch (error) { console.error(...) } })\<close>,
  threading the log of invocations.
\<close>

fun forEach_try :: "'a callback list \<Rightarrow> 'a \<Rightarrow> ('a callback \<times> 'a) list \<Rightarrow> ('a callback \<times> 'a) list" where
  "forEach_try [] a calls = calls"
| "forEach_try (callback # rest) a calls =
     (case invoke callback a of
        Inr _ \<Rightarrow> forEach_try rest a (calls @ [(callback, a)])
      | Inl error \<Rightarrow> forEach_try rest a (calls @ [(callback, a)]))"

definition onConnection :: "(string \<times> port option) callback \<Rightarrow> detector \<Rightarrow> detector" where
  "onConnection callback s = s\<lparr>connectionCallbacks := set_add callback (connectionCallbacks s)\<rparr>"

definition onDisconnection :: "unit callback \<Rightarrow> detector \<Rightarrow> detector" where
  "onDisconnection callback s = s\<lparr>disconnectionCallbacks := set_add callback (disconnectionCallbacks s)\<rparr>"

definition notifyConnection :: "string \<Rightarrow> detector \<Rightarrow> detector" where
  "notifyConnection model s =
     s\<lparr>connectionCalls := forEach_try (connectionCallbacks s) (model, port s) (connectionCalls s)\<rparr>"

definition notifyDisconnection :: "detector \<Rightarrow> detector" where
  "notifyDisconnection s =
     s\<lparr>disconnectionCalls := forEach_try (disconnectionCallbacks s) () (disconnectionCalls s)\<rparr>"

text \<open>\<open>USBStatusMonitor\<close>: its set of status observers, and the log of their invocations.\<close>

record 'st monitor =
  statusCallbacks :: "'st callback list"
  statusCalls :: "('st callback \<times> 'st) list"

definition onStatusChange :: "'st callback \<Rightarrow> 'st monitor \<Rightarrow> 'st monitor" where
  "onStatusChange callback m = m\<lparr>statusCallbacks := set_add callback (statusCallbacks m)\<rparr>"

definition notifyStatus :: "'st \<Rightarrow> 'st monitor \<Rightarrow> 'st monitor" where
  "notifyStatus status m =
     m\<lparr>statusCalls := forEach_try (statusCallbacks m) status (statusCalls m)\<rparr>"

subsection \<open>Disconnecting\<close>

text \<open>The first two blocks of \<open>disconnect\<close>: the reader is cancelled and released, the
  writer released, and both fields set to \<open>null\<close>. \<open>cancel()\<close> returns a promise that is not
  awaited and \<open>releaseLock()\<close> does nothing on a lock already released, so neither block
  throws.\<close>

definition releaseReader :: "detector \<Rightarrow> detector" where
  "releaseReader s =
     (if reader s \<noteq> None
      then (emit ReaderRelease (emit ReaderCancel s))\<lparr>reader := None\<rparr>
      else s)"

definition releaseWriter :: "detector \<Rightarrow> detector" where
  "releaseWriter s =
     (if writer s \<noteq> None
      then (emit WriterRelease s)\<lparr>writer := None\<rparr>
      else s)"


section \<open>Notions used in the statements\<close>

text \<open>The byte arrays written to the port, in order, among the events of a trace.\<close>

definition written :: "io_event list \<Rightarrow> nat list list" where
  "written tr = concat (map (\<lambda>ev. case ev of WriterWrite t \<Rightarrow> [t] | _ \<Rightarrow> []) tr)"

text \<open>The entries a call appended to a log.\<close>

definition new_calls :: "'a list \<Rightarrow> 'a list \<Rightarrow> 'a list" where
  "new_calls before after = drop (length before) after"

text \<open>A method result on which the loop of \<open>identifyModel\<close> goes on to the next method.\<close>

definition unrecognised :: "error + string option \<Rightarrow> bool" where
  "unrecognised r = (case r of Inl e \<Rightarrow> True | Inr None \<Rightarrow> True | Inr (Some model) \<Rightarrow> model = [])"

text \<open>The key of the first table entry that matches a descriptor.\<close>

definition matched_key :: "port_info \<Rightarrow> string option" where
  "matched_key info =
     map_option fst (find (\<lambda>(key, sg). signature_matches info sg) arduinoSignatures_products)"

text \<open>
  For \<open>detectBaudRate\<close>: every rate of a list fails in turn, each attempt starting in the
  state the one before left; the state after a list of attempts; and an attempt that
  ends without an exception.
\<close>

fun all_fail :: "nat list \<Rightarrow> detector \<Rightarrow> bool" where
  "all_fail [] s = True"
| "all_fail (b # rest) s = (isl (fst (tryBaudRate b s)) \<and> all_fail rest (snd (tryBaudRate b s)))"

definition after_attempts :: "nat list \<Rightarrow> detector \<Rightarrow> detector" where
  "after_attempts rates s = fold (\<lambda>b s. snd (tryBaudRate b s)) rates s"

definition completes :: "nat \<Rightarrow> detector \<Rightarrow> bool" where
  "completes b s = (\<not> isl (fst (tryBaudRate b s)))"

section \<open>Example ports and detectors\<close>

text \<open>
  A port whose answers do not depend on what was done before: the two identifiers, what
  \<open>close\<close> answers, what \<open>open\<close> answers at each rate, and the reads that resolve after each
  command. Every \<open>getWriter\<close>, \<open>write\<close> and \<open>getReader\<close> succeeds.
\<close>

definition steady_port ::
  "nat option \<Rightarrow> nat option \<Rightarrow> error option \<Rightarrow> (nat \<Rightarrow> error option) \<Rightarrow> read_result list \<Rightarrow> port" where
  "steady_port v pr closing opening reads =
     \<lparr>getInfo = \<lparr>usbVendorId = v, usbProductId = pr\<rparr>,
      close_result = (\<lambda>tr. closing),
      open_result = (\<lambda>tr baudRate. opening baudRate),
      getWriter_result = (\<lambda>tr. None),
      write_result = (\<lambda>tr bytes. None),
      getReader_result = (\<lambda>tr. None),
      read_results = (\<lambda>tr. reads)\<rparr>"

text \<open>A fresh detector holding a port.\<close>

definition with_port :: "port \<Rightarrow> detector" where
  "with_port p = USBDetector\<lparr>port := Some p\<rparr>"

text \<open>A board that opens at 57600 baud only and answers \<open>ready\<close>.\<close>

definition picky_port :: port where
  "picky_port = steady_port (Some 0x2341) (Some 0x0043) None
     (\<lambda>b. if b = 57600 then None else Some (Error ''NetworkError'')) [Chunk (''ready'' @ [CR, LF])]"

text \<open>A board that echoes the line terminator it is sent, at every rate.\<close>

definition echo_port :: port where
  "echo_port = steady_port (Some 0x2341) (Some 0x0043) None (\<lambda>b. None) [Chunk [CR, LF]]"

text \<open>Observers that return, and observers that throw.\<close>

definition quiet_observer :: "nat \<Rightarrow> 'a callback" where
  "quiet_observer n = Callback n (\<lambda>a. None)"

definition throwing_observer :: "nat \<Rightarrow> 'a callback" where
  "throwing_observer n = Callback n (\<lambda>a. Some (Error ''observer failed''))"

text \<open>A detector that never had a port, and a monitor, each with three observers
  registered, the second of which throws.\<close>

definition observed :: detector where
  "observed =
     onDisconnection (quiet_observer 3) (onDisconnection (throwing_observer 2) (onDisconnection (quiet_observer 1)
       (onConnection (quiet_observer 3) (onConnection (throwing_observer 2) (onConnection (quiet_observer 1)
          USBDetector)))))"

definition observed_monitor :: "string monitor" where
  "observed_monitor =
     onStatusChange (quiet_observer 3) (onStatusChange (throwing_observer 2) (onStatusChange (quiet_observer 1)
       \<lparr>statusCallbacks = [], statusCalls = []\<rparr>))"


text \<open>
  A sketch of 65 code units that holds both markers and ends in the surrogate pair
  \<open>0xD83D 0xDE00\<close> (one character above \<open>0xFFFF\<close>), which sits at the indices 63 and 64.
\<close>

definition snag_head :: "nat list" where
  "snag_head = units ''void setup() { Serial.begin(9600); } void loop() { } // smile: ''"

definition snag :: "nat list" where
  "snag = snag_head @ [0xD83D, 0xDE00]"


section \<open>Properties\<close>

declare chunkLoop.simps [simp del]

subsection \<open>Wrapping\<close>

lemma js_includes_sublist: "js_includes s t \<longleftrightarrow> sublist t s"
  by (induction s) (auto simp: sublist_Cons_right)

lemma js_includes_mid: "js_includes (a @ t @ b) t"
  by (simp add: js_includes_sublist)

lemma wrapped_has_setup:
  "js_includes (template_head options @ code @ template_tail) ''void setup()''"
proof -
  have "template_head options @ code @ template_tail =
      (''// Uploaded by VitaCoder Pro'' @ [LF] @ libraries_or_empty options @ [LF] @ [LF])
      @ ''void setup()''
      @ ('' {'' @ [LF] @ ''    Serial.begin(9600);'' @ [LF] @ ''    '' @ code @ template_tail)"
    by (simp add: template_head_def)
  then show ?thesis by (metis js_includes_mid)
qed

lemma wrapped_has_loop:
  "js_includes (template_head options @ code @ template_tail) ''void loop()''"
proof -
  have "template_head options @ code @ template_tail =
      (template_head options @ code @ [LF] @ ''}'' @ [LF] @ [LF])
      @ ''void loop()''
      @ ('' {'' @ [LF] @ ''    // Your code runs here'' @ [LF] @ ''}'')"
    by (simp add: template_tail_def)
  then show ?thesis by (metis js_includes_mid)
qed

text \<open>
  Claim C2. Wrapping is idempotent: for every source and every options value,
  wrapping the wrapped text again gives the wrapped text. The template holds both
  markers, \<open>void setup()\<close> and \<open>void loop()\<close>, so its output passes through unchanged.
\<close>

theorem wrap_idempotent:
  "wrapCodeForUpload (wrapCodeForUpload source options) options = wrapCodeForUpload source options"
  by (simp add: wrapCodeForUpload_def wrapped_has_setup wrapped_has_loop)

text \<open>
  An instance: a source without the markers is changed by the first wrap and not by the
  second.
\<close>

theorem wrap_idempotent_witness:
  "wrapCodeForUpload (wrapCodeForUpload ''tone(8, 440);'' default_options) default_options
     = wrapCodeForUpload ''tone(8, 440);'' default_options
   \<and> wrapCodeForUpload ''tone(8, 440);'' default_options \<noteq> ''tone(8, 440);''"
proof -
  have "wrapCodeForUpload ''tone(8, 440);'' default_options \<noteq> ''tone(8, 440);''"
    by (simp add: wrapCodeForUpload_def template_head_def)
  then show ?thesis
    using wrap_idempotent [of "''tone(8, 440);''" default_options] by simp
qed

text \<open>
  Claim C7. What the template produces for a source without the markers: the baud rate
  is declared in \<open>setup()\<close>, the source follows it inside \<open>setup()\<close>, and the body of
  \<open>loop()\<close> is the comment \<open>// Your code runs here\<close> alone. The source is not placed in
  the loop body.
\<close>

theorem wrap_puts_source_in_setup:
  "wrapCodeForUpload ''tone(8, 440);'' default_options =
     ''// Uploaded by VitaCoder Pro'' @ [LF] @
     [LF] @
     [LF] @
     ''void setup() {'' @ [LF] @
     ''    Serial.begin(9600);'' @ [LF] @
     ''    tone(8, 440);'' @ [LF] @
     ''}'' @ [LF] @
     [LF] @
     ''void loop() {'' @ [LF] @
     ''    // Your code runs here'' @ [LF] @
     ''}''"
  by (simp add: wrapCodeForUpload_def template_head_def template_tail_def libraries_or_empty_def
      default_options_def)

subsection \<open>Chunked upload\<close>

lemma substring_take_drop: "i \<le> length s \<Longrightarrow> substring s i (i + n) = take n (drop i s)"
  by (auto simp: substring_def Let_def min_def max_def)

lemma concat_chunkLoop:
  "0 < n \<Longrightarrow> i \<le> length str \<Longrightarrow> concat (chunkLoop str n i chunks) = concat chunks @ drop i str"
proof (induction str n i chunks rule: chunkLoop.induct)
  case (1 str chunkSize i chunks)
  show ?case
  proof (cases "i < length str")
    case True
    show ?thesis
    proof (cases "i + chunkSize \<le> length str")
      case le: True
      have "concat (chunkLoop str chunkSize i chunks) = concat (chunkLoop str chunkSize (i + chunkSize) (chunks @ [substring str i (i + chunkSize)]))"
        using True "1.prems" by (subst chunkLoop.simps) simp
      also have "\<dots> = concat (chunks @ [substring str i (i + chunkSize)]) @ drop (i + chunkSize) str"
        using "1.IH" True "1.prems" le by simp
      also have "\<dots> = concat chunks @ take chunkSize (drop i str) @ drop (i + chunkSize) str"
        using True by (simp add: substring_take_drop)
      also have "take chunkSize (drop i str) @ drop (i + chunkSize) str = drop i str"
        by (metis add.commute append_take_drop_id drop_drop)
      finally show ?thesis .
    next
      case gt: False
      have "chunkLoop str chunkSize i chunks = chunkLoop str chunkSize (i + chunkSize) (chunks @ [substring str i (i + chunkSize)])"
        using True "1.prems" by (subst chunkLoop.simps) simp
      also have "\<dots> = chunks @ [substring str i (i + chunkSize)]"
        using gt by (subst chunkLoop.simps) simp
      finally show ?thesis using True gt by (simp add: substring_take_drop)
    qed
  next
    case False
    then show ?thesis using "1.prems" by (subst chunkLoop.simps) simp
  qed
qed

lemma chunkString_64: "\<exists>chunks. chunkString str 64 = Some chunks \<and> concat chunks = str"
  by (simp add: chunkString_def concat_chunkLoop)

lemma written_simps [simp]:
  "written [] = []"
  "written (tr @ tr') = written tr @ written tr'"
  "written (WriterWrite t # tr) = t # written tr"
  "written (GetWriter # tr) = written tr"
  "written (WriterRelease # tr) = written tr"
  "written (map WriterWrite ts) = ts"
  by (induction ts) (simp_all add: written_def)

lemma encode_concat: "concat (map encode chunks) = encode (concat chunks)"
  by (induction chunks) (simp_all add: encode_def)

lemma TextEncoder_encode_plain:
  "\<not> isHighSurrogate c \<Longrightarrow> \<not> isLowSurrogate c \<Longrightarrow>
     TextEncoder_encode (c # rest) = utf8 c @ TextEncoder_encode rest"
  by (cases rest) simp_all

lemma utf8_of_char: "utf8 (of_char c) = encodeUnit c"
proof -
  have "(of_char c :: nat) < 256" by simp
  then have "(of_char c :: nat) < 0x800" by linarith
  then show ?thesis by (simp add: utf8_def encodeUnit_def Let_def)
qed

lemma TextEncoder_encode_units: "TextEncoder_encode (units s @ rest) = encode s @ TextEncoder_encode rest"
proof (induction s)
  case Nil
  then show ?case by (simp add: units_def encode_def)
next
  case (Cons c s)
  have b: "(of_char c :: nat) < 256" by simp
  then have "\<not> 0xD800 \<le> (of_char c :: nat)" "\<not> 0xDC00 \<le> (of_char c :: nat)"
    by linarith+
  then have "\<not> isHighSurrogate (of_char c)" "\<not> isLowSurrogate (of_char c)"
    by (simp_all add: isHighSurrogate_def isLowSurrogate_def)
  then have "TextEncoder_encode (of_char c # (units s @ rest))
      = utf8 (of_char c) @ TextEncoder_encode (units s @ rest)"
    by (rule TextEncoder_encode_plain)
  then show ?case using Cons.IH by (simp add: units_def encode_def utf8_of_char)
qed

lemma encode_units: "encode s = TextEncoder_encode (units s)"
  using TextEncoder_encode_units [of s "[]"] by simp

lemma writeChunks_trace:
  "writeChunks p chunks s = (r, s') \<Longrightarrow>
     \<exists>k \<le> length chunks. trace s' = trace s @ map WriterWrite (map encode (take k chunks))
        \<and> (r = Inr () \<longrightarrow> k = length chunks)"
proof (induction chunks arbitrary: s)
  case Nil
  then show ?case by simp
next
  case (Cons chunk rest)
  show ?case
  proof (cases "write_result p (trace s) (encode chunk)")
    case None
    then have "writeChunks p rest (emit (WriterWrite (encode chunk)) s) = (r, s')"
      using Cons.prems by (simp add: writer_write_def outcome_def)
    from Cons.IH [OF this] obtain k where k: "k \<le> length rest"
      "trace s' = trace (emit (WriterWrite (encode chunk)) s) @ map WriterWrite (map encode (take k rest))"
      "r = Inr () \<longrightarrow> k = length rest" by blast
    then have "Suc k \<le> length (chunk # rest)
       \<and> trace s' = trace s @ map WriterWrite (map encode (take (Suc k) (chunk # rest)))
       \<and> (r = Inr () \<longrightarrow> Suc k = length (chunk # rest))"
      by (simp add: emit_def)
    then show ?thesis by blast
  next
    case (Some e)
    then have "r = Inl e" "s' = emit (WriterWrite (encode chunk)) s"
      using Cons.prems by (simp_all add: writer_write_def outcome_def)
    then have "Suc 0 \<le> length (chunk # rest)
       \<and> trace s' = trace s @ map WriterWrite (map encode (take (Suc 0) (chunk # rest)))
       \<and> (r = Inr () \<longrightarrow> Suc 0 = length (chunk # rest))"
      by (simp add: emit_def)
    then show ?thesis by blast
  qed
qed

lemma sendCodeChunked_written:
  assumes "chunkString code 64 = Some chunks" "sendCodeChunked code s = Some (r, s')"
  shows "\<exists>new. trace s' = trace s @ new \<and> prefix (written new) (map encode chunks)
           \<and> (r = Inr () \<longrightarrow> written new = map encode chunks)"
proof (cases "port s")
  case None
  then have "s' = s" "r = Inl (Error ''TypeError'')"
    using assms by (simp_all add: sendCodeChunked_def)
  then have "trace s' = trace s @ [] \<and> prefix (written []) (map encode chunks)
      \<and> (r = Inr () \<longrightarrow> written [] = map encode chunks)"
    by simp
  then show ?thesis by blast
next
  case (Some p)
  show ?thesis
  proof (cases "getWriter_result p (trace s)")
    case (Some e)
    then have "s' = emit GetWriter s" "r = Inl e"
      using assms \<open>port s = Some p\<close>
      by (simp_all add: sendCodeChunked_def writable_getWriter_def outcome_def)
    then have "trace s' = trace s @ [GetWriter] \<and> prefix (written [GetWriter]) (map encode chunks)
        \<and> (r = Inr () \<longrightarrow> written [GetWriter] = map encode chunks)"
      by (simp add: emit_def)
    then show ?thesis by blast
  next
    case None
    obtain r2 s2 where w: "writeChunks p chunks ((emit GetWriter s)\<lparr>writer := Some Lock\<rparr>) = (r2, s2)"
      by (cases "writeChunks p chunks ((emit GetWriter s)\<lparr>writer := Some Lock\<rparr>)") blast
    then have rs: "r = r2" "s' = emit WriterRelease s2"
      using assms \<open>port s = Some p\<close> None
      by (simp_all add: sendCodeChunked_def writable_getWriter_def outcome_def)
    from writeChunks_trace [OF w] obtain k where k: "k \<le> length chunks"
      "trace s2 = trace s @ [GetWriter] @ map WriterWrite (map encode (take k chunks))"
      "r2 = Inr () \<longrightarrow> k = length chunks"
      by (auto simp: emit_def)
    let ?new = "[GetWriter] @ map WriterWrite (map encode (take k chunks)) @ [WriterRelease]"
    have "trace s' = trace s @ ?new" using rs k by (simp add: emit_def)
    moreover have "written ?new = map encode (take k chunks)" by (simp del: map_map)
    moreover have "prefix (map encode (take k chunks)) (map encode chunks)"
      by (metis append_take_drop_id map_append prefixI)
    moreover have "r = Inr () \<longrightarrow> map encode (take k chunks) = map encode chunks" using rs k by simp
    ultimately show ?thesis by metis
  qed
qed

text \<open>
  What holds of the upload on a source without surrogates (every \<open>string\<close> is one):
  \<open>chunkString\<close> returns on the wrapped source, and its chunks concatenated in order are
  the wrapped source; \<open>uploadCode\<close> returns, the byte arrays it wrote are the encodings of an
  initial run of those chunks, in the same order and each once, and when it succeeds they
  are the encodings of all of them, so that the bytes written, concatenated, are the bytes of
  the wrapped source.
\<close>

theorem upload_chunks_reconstruct:
  "\<exists>chunks. chunkString (wrapCodeForUpload source options) 64 = Some chunks
     \<and> concat chunks = wrapCodeForUpload source options
     \<and> (\<exists>r s'. uploadCode source options s = Some (r, s')
          \<and> prefix (written (drop (length (trace s)) (trace s'))) (map encode chunks)
          \<and> (r = Inr True \<longrightarrow>
                written (drop (length (trace s)) (trace s')) = map encode chunks
                \<and> concat (written (drop (length (trace s)) (trace s')))
                    = encode (wrapCodeForUpload source options)))"
proof -
  let ?full = "wrapCodeForUpload source options"
  obtain chunks where c: "chunkString ?full 64 = Some chunks" "concat chunks = ?full"
    using chunkString_64 by blast
  have e: "concat (map encode chunks) = encode ?full"
    using c(2) by (simp add: encode_concat)
  have "\<exists>r s'. uploadCode source options s = Some (r, s')
          \<and> prefix (written (drop (length (trace s)) (trace s'))) (map encode chunks)
          \<and> (r = Inr True \<longrightarrow>
                written (drop (length (trace s)) (trace s')) = map encode chunks
                \<and> concat (written (drop (length (trace s)) (trace s'))) = encode ?full)"
  proof (cases "isConnected s")
    case False
    then show ?thesis by (simp add: uploadCode_def)
  next
    case True
    have "\<exists>x. sendCodeChunked ?full s = Some x"
      using c(1) by (simp add: sendCodeChunked_def)
    then obtain r1 s1 where sc: "sendCodeChunked ?full s = Some (r1, s1)"
      by (metis surj_pair)
    from sendCodeChunked_written [OF c(1) sc] obtain new where new:
      "trace s1 = trace s @ new" "prefix (written new) (map encode chunks)"
      "r1 = Inr () \<longrightarrow> written new = map encode chunks"
      by blast
    show ?thesis
    proof (cases r1)
      case (Inl e)
      then have "uploadCode source options s = Some (Inl e, s1)"
        using True sc by (simp add: uploadCode_def)
      then show ?thesis using new by simp
    next
      case (Inr u)
      then have "uploadCode source options s = Some (Inr True, s1)"
        using True sc by (simp add: uploadCode_def)
      then show ?thesis using new Inr e by simp
    qed
  qed
  then show ?thesis using c by blast
qed

lemma uploading_succeeds:
  "fst (the (uploadCode ''tone(8, 440);'' default_options
      ((with_port (steady_port None None None (\<lambda>b. None) []))\<lparr>isConnected := True\<rparr>))) = Inr True"
  by code_simp

text \<open>
  An instance: a connected detector whose port accepts every write. The wrapped source
  has 133 code units, so three chunks are written, and the bytes written are the bytes of
  the wrapped source.
\<close>

theorem upload_chunks_reconstruct_witness:
  "fst (the (uploadCode ''tone(8, 440);'' default_options
      ((with_port (steady_port None None None (\<lambda>b. None) []))\<lparr>isConnected := True\<rparr>))) = Inr True
   \<and> concat (written (drop (length (trace ((with_port (steady_port None None None (\<lambda>b. None) []))\<lparr>isConnected := True\<rparr>)))
        (trace (snd (the (uploadCode ''tone(8, 440);'' default_options
           ((with_port (steady_port None None None (\<lambda>b. None) []))\<lparr>isConnected := True\<rparr>)))))))
      = encode (wrapCodeForUpload ''tone(8, 440);'' default_options)
   \<and> length (wrapCodeForUpload ''tone(8, 440);'' default_options) = 133"
proof -
  let ?s = "(with_port (steady_port None None None (\<lambda>b. None) []))\<lparr>isConnected := True\<rparr>"
  let ?src = "''tone(8, 440);''"
  obtain r s' where h:
    "uploadCode ?src default_options ?s = Some (r, s')"
    "r = Inr True \<longrightarrow> concat (written (drop (length (trace ?s)) (trace s')))
        = encode (wrapCodeForUpload ?src default_options)"
    using upload_chunks_reconstruct [of ?src default_options ?s] by blast
  have "r = Inr True" using uploading_succeeds h(1) by simp
  moreover have "length (wrapCodeForUpload ?src default_options) = 133"
    by (simp add: wrapCodeForUpload_def template_head_def template_tail_def libraries_or_empty_def
      default_options_def)
  ultimately show ?thesis using h by simp
qed

lemma chunkString_two:
  assumes "length a = 64" "b \<noteq> []" "length b \<le> 64"
  shows "chunkString (a @ b) 64 = Some [a, b]"
proof -
  have s1: "substring (a @ b) 0 64 = a"
    using assms substring_take_drop [of 0 "a @ b" 64] by simp
  have s2: "substring (a @ b) 64 128 = b"
    using assms substring_take_drop [of 64 "a @ b" 64] by simp
  have "chunkLoop (a @ b) 64 0 [] = chunkLoop (a @ b) 64 (0 + 64) ([] @ [substring (a @ b) 0 (0 + 64)])"
    using assms by (subst chunkLoop.simps) simp
  also have "\<dots> = chunkLoop (a @ b) 64 64 [a]"
    by (simp add: s1)
  also have "\<dots> = chunkLoop (a @ b) 64 (64 + 64) ([a] @ [substring (a @ b) 64 (64 + 64)])"
    using assms by (subst chunkLoop.simps) simp
  also have "\<dots> = chunkLoop (a @ b) 64 128 [a, b]"
    by (simp add: s2)
  also have "\<dots> = [a, b]"
    using assms by (subst chunkLoop.simps) simp
  finally show ?thesis by (simp add: chunkString_def)
qed

lemma snag_head_length: "length snag_head = 63"
  by (simp add: snag_head_def units_def)

text \<open>
  Claim C3. The claim fails on the code for a source with a character above \<open>0xFFFF\<close>
  across a chunk boundary. \<open>sendCodeChunked\<close> writes \<open>encoder.encode(chunk)\<close> for each chunk
  of \<open>chunkString(code, 64)\<close>, and \<open>chunkString\<close> cuts by code unit. The sketch \<open>snag\<close>
  holds both markers, so \<open>wrapCodeForUpload\<close> returns it as it is; its 65 code units are cut
  into a chunk of 64 that ends in the high surrogate and a chunk that is the low surrogate
  alone; each half is encoded as \<open>U+FFFD\<close> (\<open>EF BF BD\<close>), where the encoding of the whole
  sketch has the four bytes \<open>F0 9F 98 80\<close>. The bytes written, concatenated, are not the
  bytes of the wrapped source.
\<close>

theorem chunk_boundary_splits_surrogate_pair:
  "js_includes snag (units ''void setup()'')
   \<and> js_includes snag (units ''void loop()'')
   \<and> chunkString snag 64 = Some [snag_head @ [0xD83D], [0xDE00]]
   \<and> concat (map TextEncoder_encode [snag_head @ [0xD83D], [0xDE00]])
       = TextEncoder_encode snag_head @ [0xEF, 0xBF, 0xBD, 0xEF, 0xBF, 0xBD]
   \<and> TextEncoder_encode snag = TextEncoder_encode snag_head @ [0xF0, 0x9F, 0x98, 0x80]
   \<and> concat (map TextEncoder_encode (the (chunkString snag 64))) \<noteq> TextEncoder_encode snag"
proof -
  have m1: "js_includes snag (units ''void setup()'')"
  proof -
    have "snag = [] @ units ''void setup()''
        @ (units '' { Serial.begin(9600); } void loop() { } // smile: '' @ [0xD83D, 0xDE00])"
      by (simp add: snag_def snag_head_def units_def)
    then show ?thesis by (metis js_includes_mid)
  qed
  have m2: "js_includes snag (units ''void loop()'')"
  proof -
    have "snag = units ''void setup() { Serial.begin(9600); } '' @ units ''void loop()''
        @ (units '' { } // smile: '' @ [0xD83D, 0xDE00])"
      by (simp add: snag_def snag_head_def units_def)
    then show ?thesis by (metis js_includes_mid)
  qed
  have "snag = (snag_head @ [0xD83D]) @ [0xDE00]" by (simp add: snag_def)
  moreover have "chunkString ((snag_head @ [0xD83D]) @ [0xDE00 :: nat]) 64 = Some [snag_head @ [0xD83D], [0xDE00]]"
    by (rule chunkString_two) (simp_all add: snag_head_length)
  ultimately have c: "chunkString snag 64 = Some [snag_head @ [0xD83D], [0xDE00]]" by simp
  have h: "TextEncoder_encode (snag_head @ r) = TextEncoder_encode snag_head @ TextEncoder_encode r" for r
    using TextEncoder_encode_units [of "''void setup() { Serial.begin(9600); } void loop() { } // smile: ''" r]
      TextEncoder_encode_units [of "''void setup() { Serial.begin(9600); } void loop() { } // smile: ''" "[]"]
    by (simp add: snag_head_def)
  have e1: "TextEncoder_encode [0xD83D] = [0xEF, 0xBF, 0xBD]"
    by (simp add: isHighSurrogate_def utf8_def)
  have e2: "TextEncoder_encode [0xDE00] = [0xEF, 0xBF, 0xBD]"
    by (simp add: isHighSurrogate_def isLowSurrogate_def utf8_def)
  have e3: "TextEncoder_encode [0xD83D, 0xDE00] = [0xF0, 0x9F, 0x98, 0x80]"
    by (simp add: isHighSurrogate_def isLowSurrogate_def utf8_def)
  have split: "concat (map TextEncoder_encode [snag_head @ [0xD83D], [0xDE00]])
       = TextEncoder_encode snag_head @ [0xEF, 0xBF, 0xBD, 0xEF, 0xBF, 0xBD]"
    by (simp del: TextEncoder_encode.simps add: h e1 e2)
  have whole: "TextEncoder_encode snag = TextEncoder_encode snag_head @ [0xF0, 0x9F, 0x98, 0x80]"
    by (simp del: TextEncoder_encode.simps add: snag_def h e3)
  have "concat (map TextEncoder_encode (the (chunkString snag 64))) \<noteq> TextEncoder_encode snag"
    using c split whole by (simp del: TextEncoder_encode.simps)
  then show ?thesis using m1 m2 c split whole by (simp del: TextEncoder_encode.simps)
qed

text \<open>
  Claim C6. With \<open>isConnected\<close> false, \<open>uploadCode\<close> throws \<open>No Arduino connected\<close> and
  leaves the whole detector state as it was, the trace of port operations included: nothing
  is written.
\<close>

theorem upload_requires_connection:
  "\<not> isConnected s \<Longrightarrow>
     uploadCode source options s = Some (Inl (Error ''No Arduino connected''), s)"
  by (simp add: uploadCode_def)

text \<open>
  An instance: a fresh detector.
\<close>

theorem upload_requires_connection_witness:
  "\<not> isConnected USBDetector
   \<and> uploadCode ''tone(8, 440);'' default_options USBDetector
       = Some (Inl (Error ''No Arduino connected''), USBDetector)"
proof -
  have h: "\<not> isConnected USBDetector" by (simp add: USBDetector_def)
  show ?thesis using h upload_requires_connection [OF h] by simp
qed

subsection \<open>The signature table\<close>

lemma lows:
  "toLowerCase ''UNO'' = ''uno''" "toLowerCase ''UNO_R3'' = ''uno_r3''" "toLowerCase ''NANO'' = ''nano''"
  "toLowerCase ''NANO_CLONE'' = ''nano_clone''" "toLowerCase ''MEGA'' = ''mega''"
  "toLowerCase ''MEGA2560'' = ''mega2560''" "toLowerCase ''LEONARDO'' = ''leonardo''"
  "toLowerCase ''ESP32'' = ''esp32''" "toLowerCase ''GENERIC'' = ''generic''"
  by code_simp+

lemma matched_key_cases:
  "matched_key info =
     (if usbVendorId info = Some 0x2341 then
        (if usbProductId info = Some 0x0043 then Some ''UNO''
         else if usbProductId info = Some 0x0010 then Some ''NANO''
         else if usbProductId info = Some 0x0042 then Some ''MEGA2560''
         else if usbProductId info = Some 0x0036 then Some ''LEONARDO''
         else Some ''GENERIC'')
      else if usbVendorId info = Some 0x1A86 \<and> usbProductId info = Some 0x7523 then Some ''NANO_CLONE''
      else if usbVendorId info = Some 0x10C4 \<and> usbProductId info = Some 0xEA60 then Some ''ESP32''
      else None)"
  by (simp add: matched_key_def arduinoSignatures_products_def signature_matches_def)

lemma identifyByUSBInfo_key:
  "port s = Some p \<Longrightarrow>
     identifyByUSBInfo s =
       (Inr (if truthy (usbVendorId (getInfo p)) \<and> truthy (usbProductId (getInfo p))
             then map_option toLowerCase (matched_key (getInfo p)) else None), s)"
  by (simp add: identifyByUSBInfo_def matched_key_def split: option.splits)

lemma identifyByUSBInfo_no_port:
  "port s = None \<Longrightarrow> identifyByUSBInfo s = (Inl (Error ''TypeError''), s)"
  by (simp add: identifyByUSBInfo_def)

lemma quickIdentifyPort_key:
  "map_option qd_model (quickIdentifyPort p) = map_option toLowerCase (matched_key (getInfo p))"
  by (simp add: quickIdentifyPort_def matched_key_def Let_def split: option.splits)

lemma identifyByUSBInfo_state: "snd (identifyByUSBInfo s) = s"
  by (simp add: identifyByUSBInfo_def split: option.splits prod.splits)

lemma port_with_port [simp]: "port (with_port p) = Some p"
  by (simp add: with_port_def USBDetector_def)

text \<open>
  Claim C5. A port reporting vendor \<open>0x2341\<close> and product \<open>0x0043\<close> is identified as
  \<open>uno\<close> by \<open>identifyByUSBInfo\<close>, which leaves the detector and the trace of port
  operations unchanged; \<open>identifyModel\<close> returns \<open>uno\<close> from that first method, again with
  no operation on the port.
\<close>

theorem uno_by_descriptor:
  assumes "port s = Some p" "usbVendorId (getInfo p) = Some 0x2341" "usbProductId (getInfo p) = Some 0x0043"
  shows "identifyByUSBInfo s = (Inr (Some ''uno''), s)
    \<and> trace (snd (identifyByUSBInfo s)) = trace s
    \<and> identifyModel s = (Inr ''uno'', s)"
proof -
  have a: "identifyByUSBInfo s = (Inr (Some ''uno''), s)"
    using assms
    by (simp add: identifyByUSBInfo_def truthy_def arduinoSignatures_products_def signature_matches_def lows)
  then have "identifyModel s = (Inr ''uno'', s)"
    using assms(1) by (simp add: identifyModel_def methods_def)
  with a show ?thesis by simp
qed

text \<open>
  An instance: a fresh detector holding such a port.
\<close>

theorem uno_by_descriptor_witness:
  "identifyByUSBInfo (with_port (steady_port (Some 0x2341) (Some 0x0043) None (\<lambda>b. None) []))
     = (Inr (Some ''uno''), with_port (steady_port (Some 0x2341) (Some 0x0043) None (\<lambda>b. None) []))
   \<and> identifyModel (with_port (steady_port (Some 0x2341) (Some 0x0043) None (\<lambda>b. None) []))
     = (Inr ''uno'', with_port (steady_port (Some 0x2341) (Some 0x0043) None (\<lambda>b. None) []))
   \<and> trace (snd (identifyModel (with_port (steady_port (Some 0x2341) (Some 0x0043) None (\<lambda>b. None) [])))) = []"
proof -
  let ?p = "steady_port (Some 0x2341) (Some 0x0043) None (\<lambda>b. None) []"
  have "port (with_port ?p) = Some ?p" "usbVendorId (getInfo ?p) = Some 0x2341"
    "usbProductId (getInfo ?p) = Some 0x0043"
    by (simp_all add: steady_port_def)
  from uno_by_descriptor [OF this] show ?thesis
    by (simp add: with_port_def USBDetector_def)
qed

text \<open>
  What holds of the table walk: the entries \<open>NANO\<close> and \<open>MEGA\<close> hold the same pair, vendor
  \<open>0x2341\<close> and product \<open>0x0010\<close>; a port reporting that pair is \<open>nano\<close> for both
  \<open>identifyByUSBInfo\<close> and \<open>quickIdentifyPort\<close>; neither ever answers \<open>mega\<close>. A port of
  vendor \<open>0x2341\<close> whose product matches no specific entry is \<open>generic\<close> for
  \<open>quickIdentifyPort\<close> whatever the product, and for \<open>identifyByUSBInfo\<close> when the product
  identifier is present and not zero.
\<close>

theorem nano_shadows_mega:
  "map_option (\<lambda>sg. (sig_vendor sg, sig_product sg)) (map_of arduinoSignatures_products ''NANO'') = Some (0x2341, Some 0x0010)
   \<and> map_option (\<lambda>sg. (sig_vendor sg, sig_product sg)) (map_of arduinoSignatures_products ''MEGA'') = Some (0x2341, Some 0x0010)
   \<and> (port s = Some p \<and> usbVendorId (getInfo p) = Some 0x2341 \<and> usbProductId (getInfo p) = Some 0x0010
        \<longrightarrow> identifyByUSBInfo s = (Inr (Some ''nano''), s)
          \<and> map_option qd_model (quickIdentifyPort p) = Some ''nano'')
   \<and> fst (identifyByUSBInfo s) \<noteq> Inr (Some ''mega'')
   \<and> map_option qd_model (quickIdentifyPort q) \<noteq> Some ''mega''
   \<and> (port s = Some p \<and> usbVendorId (getInfo p) = Some 0x2341 \<and> usbProductId (getInfo p) = Some n
        \<and> n \<noteq> 0 \<and> n \<notin> {0x0043, 0x0010, 0x0042, 0x0036}
        \<longrightarrow> identifyByUSBInfo s = (Inr (Some ''generic''), s))
   \<and> (usbVendorId (getInfo q) = Some 0x2341
        \<and> usbProductId (getInfo q) \<notin> {Some 0x0043, Some 0x0010, Some 0x0042, Some 0x0036}
        \<longrightarrow> map_option qd_model (quickIdentifyPort q) = Some ''generic'')"
proof -
  have t1: "map_option (\<lambda>sg. (sig_vendor sg, sig_product sg)) (map_of arduinoSignatures_products ''NANO'') = Some (0x2341, Some 0x0010)"
    by (simp add: arduinoSignatures_products_def)
  have t2: "map_option (\<lambda>sg. (sig_vendor sg, sig_product sg)) (map_of arduinoSignatures_products ''MEGA'') = Some (0x2341, Some 0x0010)"
    by (simp add: arduinoSignatures_products_def)
  have n1: "identifyByUSBInfo s = (Inr (Some ''nano''), s)"
    if "port s = Some p" "usbVendorId (getInfo p) = Some 0x2341" "usbProductId (getInfo p) = Some 0x0010"
    using that by (simp add: identifyByUSBInfo_key truthy_def matched_key_cases lows)
  have n2: "map_option qd_model (quickIdentifyPort p) = Some ''nano''"
    if "usbVendorId (getInfo p) = Some 0x2341" "usbProductId (getInfo p) = Some 0x0010"
    using that by (simp add: quickIdentifyPort_key matched_key_cases lows)
  have m1: "fst (identifyByUSBInfo s) \<noteq> Inr (Some ''mega'')"
  proof (cases "port s")
    case None
    then show ?thesis by (simp add: identifyByUSBInfo_no_port)
  next
    case (Some p)
    then show ?thesis by (simp add: identifyByUSBInfo_key matched_key_cases lows)
  qed
  have m2: "map_option qd_model (quickIdentifyPort q) \<noteq> Some ''mega''"
    by (simp add: quickIdentifyPort_key matched_key_cases lows)
  have g1: "identifyByUSBInfo s = (Inr (Some ''generic''), s)"
    if "port s = Some p" "usbVendorId (getInfo p) = Some 0x2341" "usbProductId (getInfo p) = Some n"
       "n \<noteq> 0" "n \<notin> {0x0043, 0x0010, 0x0042, 0x0036}"
    using that by (simp add: identifyByUSBInfo_key truthy_def matched_key_cases lows)
  have g2: "map_option qd_model (quickIdentifyPort q) = Some ''generic''"
    if "usbVendorId (getInfo q) = Some 0x2341"
       "usbProductId (getInfo q) \<notin> {Some 0x0043, Some 0x0010, Some 0x0042, Some 0x0036}"
    using that by (simp add: quickIdentifyPort_key matched_key_cases lows)
  show ?thesis using t1 t2 n1 n2 m1 m2 g1 g2 by blast
qed

text \<open>
  Instances: a port of product \<open>0x0010\<close>, one of product \<open>0x7777\<close>, and one of product
  \<open>0\<close> for \<open>quickIdentifyPort\<close>.
\<close>

theorem nano_shadows_mega_witness:
  "identifyByUSBInfo (with_port (steady_port (Some 0x2341) (Some 0x0010) None (\<lambda>b. None) []))
     = (Inr (Some ''nano''), with_port (steady_port (Some 0x2341) (Some 0x0010) None (\<lambda>b. None) []))
   \<and> map_option qd_model (quickIdentifyPort (steady_port (Some 0x2341) (Some 0x0010) None (\<lambda>b. None) []))
     = Some ''nano''
   \<and> identifyByUSBInfo (with_port (steady_port (Some 0x2341) (Some 0x7777) None (\<lambda>b. None) []))
     = (Inr (Some ''generic''), with_port (steady_port (Some 0x2341) (Some 0x7777) None (\<lambda>b. None) []))
   \<and> map_option qd_model (quickIdentifyPort (steady_port (Some 0x2341) (Some 0) None (\<lambda>b. None) []))
     = Some ''generic''"
proof -
  let ?nano = "steady_port (Some 0x2341) (Some 0x0010) None (\<lambda>b. None) []"
  let ?other = "steady_port (Some 0x2341) (Some 0x7777) None (\<lambda>b. None) []"
  let ?zero = "steady_port (Some 0x2341) (Some 0) None (\<lambda>b. None) []"
  have a: "port (with_port ?nano) = Some ?nano \<and> usbVendorId (getInfo ?nano) = Some 0x2341
      \<and> usbProductId (getInfo ?nano) = Some 0x0010"
    by (simp add: steady_port_def)
  have b: "port (with_port ?other) = Some ?other \<and> usbVendorId (getInfo ?other) = Some 0x2341
      \<and> usbProductId (getInfo ?other) = Some 0x7777 \<and> (0x7777::nat) \<noteq> 0
      \<and> (0x7777::nat) \<notin> {0x0043, 0x0010, 0x0042, 0x0036}"
    by (simp add: steady_port_def)
  have c: "usbVendorId (getInfo ?zero) = Some 0x2341
      \<and> usbProductId (getInfo ?zero) \<notin> {Some 0x0043, Some 0x0010, Some 0x0042, Some 0x0036}"
    by (simp add: steady_port_def)
  show ?thesis
    using nano_shadows_mega [of "with_port ?nano" ?nano ?zero "0x0010"]
      nano_shadows_mega [of "with_port ?other" ?other ?zero "0x7777"] a b c
    by blast
qed

text \<open>
  Claim C9. The claim fails on the code at vendor \<open>0x2341\<close>, product \<open>0\<close>, a product
  identifier that matches no specific entry: in \<open>identifyByUSBInfo\<close> the test
  \<open>info.usbVendorId && info.usbProductId\<close> takes the identifier \<open>0\<close> for a missing one
  and the method returns \<open>null\<close> without walking the table, where \<open>quickIdentifyPort\<close>, which
  walks the same table with the same test of an entry, answers \<open>generic\<close>.
\<close>

theorem descriptor_match_drops_product_zero:
  "fst (identifyByUSBInfo (with_port (steady_port (Some 0x2341) (Some 0) None (\<lambda>b. None) [])))
     = Inr None
   \<and> map_option qd_model (quickIdentifyPort (steady_port (Some 0x2341) (Some 0) None (\<lambda>b. None) []))
     = Some ''generic''"
proof -
  have "fst (identifyByUSBInfo (with_port (steady_port (Some 0x2341) (Some 0) None (\<lambda>b. None) [])))
     = Inr None"
    by (simp add: identifyByUSBInfo_def with_port_def USBDetector_def steady_port_def truthy_def)
  moreover have "map_option qd_model (quickIdentifyPort (steady_port (Some 0x2341) (Some 0) None (\<lambda>b. None) []))
     = Some ''generic''"
    by (simp add: quickIdentifyPort_key matched_key_cases lows steady_port_def)
  ultimately show ?thesis by simp
qed

subsection \<open>Identification\<close>

lemma port_emit [simp]: "port (emit ev s) = port s"
  by (simp add: emit_def)

lemma port_readLoop: "port (snd (readLoop response rs s)) = port s"
  by (induction rs arbitrary: response s) (auto split: read_result.splits)

lemma port_readResponse: "port (snd (readResponse s)) = port s"
proof (cases "port s")
  case None
  then show ?thesis by (simp add: readResponse_def)
next
  case (Some p)
  show ?thesis
  proof (cases "getReader_result p (trace s)")
    case e: (Some e)
    then show ?thesis using Some by (simp add: readResponse_def readable_getReader_def outcome_def)
  next
    case None
    let ?s1 = "(emit GetReader s)\<lparr>reader := Some Lock\<rparr>"
    have "port (snd (readLoop [] (read_results p (trace (emit GetReader s))) ?s1)) = port s"
      by (simp add: port_readLoop)
    then show ?thesis using Some None
      by (auto simp: readResponse_def readable_getReader_def outcome_def split: prod.splits option.splits sum.splits)
  qed
qed

lemma port_sendCommand: "port (snd (sendCommand command timeout s)) = port s"
proof (cases "port s")
  case None
  then show ?thesis by (simp add: sendCommand_def)
next
  case (Some p)
  have r: "port (snd (readResponse s')) = port s" if "port s' = port s" for s'
    using that by (simp add: port_readResponse)
  show ?thesis
  proof (cases "getWriter_result p (trace s)")
    case e: (Some e)
    then show ?thesis using Some by (simp add: sendCommand_def writable_getWriter_def outcome_def)
  next
    case None
    show ?thesis
    proof (cases "write_result p (trace ((emit GetWriter s)\<lparr>writer := Some Lock\<rparr>)) (encode command)")
      case e: (Some e)
      then show ?thesis using Some None
        by (simp add: sendCommand_def writable_getWriter_def writer_write_def outcome_def)
    next
      case w: None
      let ?s2 = "emit WriterRelease (emit (WriterWrite (encode command)) ((emit GetWriter s)\<lparr>writer := Some Lock\<rparr>))"
      have "port (snd (readResponse ?s2)) = port s" by (rule r) simp
      then show ?thesis using Some None w
        by (auto simp: sendCommand_def writable_getWriter_def writer_write_def outcome_def split: prod.splits option.splits)
    qed
  qed
qed

lemma port_commandLoop: "port (snd (commandLoop cs s)) = port s"
proof (induction cs arbitrary: s)
  case Nil
  then show ?case by simp
next
  case (Cons c cs)
  obtain command expected timeout where c: "c = (command, expected, timeout)" by (cases c) auto
  obtain r s' where sc: "sendCommand command timeout s = (r, s')" by (cases "sendCommand command timeout s") auto
  then have p: "port s' = port s" using port_sendCommand [of command timeout s] by simp
  show ?case using c sc p Cons.IH [of s'] by (auto split: sum.splits)
qed

lemma port_tryBaudRate: "port (snd (tryBaudRate b s)) = port s"
proof (cases "port s")
  case None
  then show ?thesis by (simp add: tryBaudRate_def)
next
  case (Some p)
  have sc: "port (snd (sendCommand [CR, LF] 500 s')) = port s" if "port s' = port s" for s'
    using that by (simp add: port_sendCommand)
  show ?thesis
  proof (cases "close_result p (trace s)")
    case e: (Some e)
    then show ?thesis using Some by (simp add: tryBaudRate_def port_close_def outcome_def)
  next
    case None
    show ?thesis
    proof (cases "open_result p (trace (emit PortClose s)) b")
      case e: (Some e)
      then show ?thesis using Some None
        by (simp add: tryBaudRate_def port_close_def openPort_def port_open_def outcome_def)
    next
      case o: None
      have "port (snd (sendCommand [CR, LF] 500 (emit (PortOpen b) (emit PortClose s)))) = port s"
        by (rule sc) simp
      then show ?thesis using Some None o
        by (simp add: tryBaudRate_def port_close_def openPort_def port_open_def outcome_def)
    qed
  qed
qed

lemma port_baudLoop: "port (snd (baudLoop rates s)) = port s"
proof (induction rates arbitrary: s)
  case Nil
  then show ?case by simp
next
  case (Cons b rates)
  obtain r s' where t: "tryBaudRate b s = (r, s')" by (cases "tryBaudRate b s") auto
  then have "port s' = port s" using port_tryBaudRate [of b s] by simp
  then show ?case using t Cons.IH [of s'] by (auto split: sum.splits)
qed

lemma port_identifyByCommandResponse: "port (snd (identifyByCommandResponse s)) = port s"
  by (simp add: identifyByCommandResponse_def port_commandLoop)

lemma port_identifyByBehavior: "port (snd (identifyByBehavior s)) = port s"
proof -
  obtain r s1 where sc: "sendCommand [CR, LF] 500 s = (r, s1)" by (cases "sendCommand [CR, LF] 500 s") auto
  then have p1: "port s1 = port s" using port_sendCommand [of "[CR, LF]" 500 s] by simp
  obtain d s2 where bl: "detectBaudRate s1 = (d, s2)" by (cases "detectBaudRate s1") auto
  then have p2: "port s2 = port s1" using port_baudLoop [of commonBaudRates s1] by (simp add: detectBaudRate_def)
  show ?thesis using sc bl p1 p2 by (auto simp: identifyByBehavior_def split: sum.splits)
qed

lemma methodLoop_skip:
  "unrecognised (fst (method s)) \<Longrightarrow> methodLoop (method # rest) s = methodLoop rest (snd (method s))"
  by (cases "method s") (auto simp: unrecognised_def split: sum.splits option.splits)

lemma sendCommand_silent:
  "port s = Some (steady_port v pr cl op []) \<Longrightarrow>
     fst (sendCommand c t s) = Inl (Error ''Command timeout'')"
  by (simp add: sendCommand_def writable_getWriter_def writer_write_def readResponse_def
      readable_getReader_def outcome_def steady_port_def)

lemma sendCommand_echo:
  "port s = Some (steady_port v pr cl op [Chunk [CR, LF]]) \<Longrightarrow>
     fst (sendCommand c t s) = Inr []"
  by (simp add: sendCommand_def writable_getWriter_def writer_write_def readResponse_def
      readable_getReader_def outcome_def steady_port_def trim_def isWhiteSpace_def)

lemma commandLoop_silent:
  "port s = Some (steady_port v pr cl op []) \<Longrightarrow> fst (commandLoop cs s) = Inr None"
proof (induction cs arbitrary: s)
  case Nil
  then show ?case by simp
next
  case (Cons c cs)
  obtain command expected timeout where c: "c = (command, expected, timeout)" by (cases c) auto
  obtain r s' where sc: "sendCommand command timeout s = (r, s')"
    by (cases "sendCommand command timeout s") auto
  then have "port s' = port s" using port_sendCommand [of command timeout s] by simp
  moreover have "r = Inl (Error ''Command timeout'')"
    using sendCommand_silent [OF Cons.prems, of command timeout] sc by simp
  ultimately show ?case using c sc Cons.IH [of s'] Cons.prems by simp
qed

lemma tryBaudRate_steady:
  assumes "port s = Some (steady_port v pr cl op reads)"
  shows "fst (tryBaudRate b s) =
     (case cl of Some e \<Rightarrow> Inl e
      | None \<Rightarrow> (case op b of Some e \<Rightarrow> Inl e
                 | None \<Rightarrow> fst (sendCommand [CR, LF] 500 (emit (PortOpen b) (emit PortClose s)))))"
  using assms
  by (simp add: tryBaudRate_def port_close_def openPort_def port_open_def outcome_def steady_port_def
      split: option.splits prod.splits)

lemma identifyByBehavior_throws:
  "fst (sendCommand [CR, LF] 500 s) = Inl e \<Longrightarrow> fst (identifyByBehavior s) = Inl e"
  by (cases "sendCommand [CR, LF] 500 s") (simp add: identifyByBehavior_def)

text \<open>
  Claim C1, amended. For every detector that holds a port, whatever the port answers,
  \<open>identifyModel\<close> returns a string and does not throw. When the descriptor match, the
  command probe and the behavioural probe each throw or return nothing, and the vendor
  identifier is none of \<open>0x2341\<close>, \<open>0x1A86\<close>, \<open>0x10C4\<close>, the string is \<open>generic\<close>.
\<close>

theorem identifyModel_degrades:
  assumes "port s = Some p"
  shows "(\<exists>model. fst (identifyModel s) = Inr model)
    \<and> (unrecognised (fst (identifyByUSBInfo s))
        \<and> unrecognised (fst (identifyByCommandResponse s))
        \<and> unrecognised (fst (identifyByBehavior (snd (identifyByCommandResponse s))))
        \<and> usbVendorId (getInfo p) \<notin> {Some 0x2341, Some 0x1A86, Some 0x10C4}
       \<longrightarrow> fst (identifyModel s) = Inr ''generic'')"
proof -
  have total: "\<exists>model. fst (identifyModel s) = Inr model"
    using assms by (auto simp: identifyModel_def split: prod.splits option.splits sum.splits)
  have generic: "fst (identifyModel s) = Inr ''generic''"
    if u1: "unrecognised (fst (identifyByUSBInfo s))"
    and u2: "unrecognised (fst (identifyByCommandResponse s))"
    and u3: "unrecognised (fst (identifyByBehavior (snd (identifyByCommandResponse s))))"
    and v: "usbVendorId (getInfo p) \<notin> {Some 0x2341, Some 0x1A86, Some 0x10C4}"
  proof -
    let ?s2 = "snd (identifyByCommandResponse s)"
    let ?s3 = "snd (identifyByBehavior ?s2)"
    have "methodLoop methods s
        = methodLoop [identifyByCommandResponse, identifyByBehavior] (snd (identifyByUSBInfo s))"
      unfolding methods_def using u1 by (rule methodLoop_skip)
    also have "\<dots> = methodLoop [identifyByCommandResponse, identifyByBehavior] s"
      by (simp only: identifyByUSBInfo_state)
    also have "\<dots> = methodLoop [identifyByBehavior] ?s2"
      using u2 by (rule methodLoop_skip)
    also have "\<dots> = methodLoop [] ?s3"
      using u3 by (rule methodLoop_skip)
    finally have ml: "methodLoop methods s = (None, ?s3)" by simp
    have "port ?s3 = Some p"
      using assms by (simp add: port_identifyByBehavior port_identifyByCommandResponse)
    then have "fallbackIdentification ?s3 = (Inr ''generic'', ?s3)"
      using v by (simp add: fallbackIdentification_def)
    then show ?thesis using assms ml by (simp add: identifyModel_def)
  qed
  show ?thesis using total generic by blast
qed

text \<open>
  An instance: an unknown vendor, and a board that never answers, so that every command
  times out.
\<close>

theorem identifyModel_degrades_witness:
  "port (with_port (steady_port (Some 0x9999) (Some 0x1234) None (\<lambda>b. None) []))
     = Some (steady_port (Some 0x9999) (Some 0x1234) None (\<lambda>b. None) [])
   \<and> fst (identifyModel (with_port (steady_port (Some 0x9999) (Some 0x1234) None (\<lambda>b. None) []))) = Inr ''generic''"
proof -
  let ?p = "steady_port (Some 0x9999) (Some 0x1234) None (\<lambda>b. None) []"
  let ?s = "with_port ?p"
  have p: "port ?s = Some ?p" by (simp add: with_port_def USBDetector_def)
  have i: "getInfo ?p = \<lparr>usbVendorId = Some 0x9999, usbProductId = Some 0x1234\<rparr>"
    by (simp add: steady_port_def)
  have "fst (identifyByUSBInfo ?s) = Inr None"
    unfolding identifyByUSBInfo_key [OF p] by (simp add: i matched_key_cases)
  then have u1: "unrecognised (fst (identifyByUSBInfo ?s))"
    by (simp add: unrecognised_def)
  have u2: "unrecognised (fst (identifyByCommandResponse ?s))"
    by (simp add: identifyByCommandResponse_def commandLoop_silent [OF p] unrecognised_def)
  have "port (snd (identifyByCommandResponse ?s)) = Some ?p"
    using p by (simp add: port_identifyByCommandResponse)
  then have "fst (sendCommand [CR, LF] 500 (snd (identifyByCommandResponse ?s))) = Inl (Error ''Command timeout'')"
    by (rule sendCommand_silent)
  then have u3: "unrecognised (fst (identifyByBehavior (snd (identifyByCommandResponse ?s))))"
    by (simp add: identifyByBehavior_throws unrecognised_def)
  have v: "usbVendorId (getInfo ?p) \<notin> {Some 0x2341, Some 0x1A86, Some 0x10C4}"
    by (simp add: i)
  show ?thesis using identifyModel_degrades [OF p] p u1 u2 u3 v by blast
qed

text \<open>
  The claim as written fails on a detector without a port: the guard at the head of
  \<open>identifyModel\<close> throws \<open>Port not open\<close>.
\<close>

theorem identifyModel_throws_without_port:
  "fst (identifyModel USBDetector) = Inl (Error ''Port not open'')"
  by (simp add: identifyModel_def USBDetector_def)

subsection \<open>Baud rate detection\<close>

lemma baudLoop_none: "fst (baudLoop rates s) = None \<longleftrightarrow> all_fail rates s"
  by (induction rates arbitrary: s) (auto split: prod.splits sum.splits)

lemma baudLoop_some:
  "fst (baudLoop rates s) = Some b \<longleftrightarrow>
     (\<exists>pre post. rates = pre @ b # post \<and> all_fail pre s \<and> completes b (after_attempts pre s))"
proof (induction rates arbitrary: s)
  case Nil
  then show ?case by simp
next
  case (Cons a rates)
  obtain r s' where t: "tryBaudRate a s = (r, s')" by (cases "tryBaudRate a s") auto
  show ?case
  proof (cases r)
    case (Inr response)
    have "fst (baudLoop (a # rates) s) = Some a" using t Inr by simp
    moreover have "\<not> all_fail (a # xs) s" for xs using t Inr by simp
    moreover have "completes a (after_attempts [] s)" using t Inr by (simp add: completes_def after_attempts_def)
    ultimately show ?thesis
      by (metis (no_types, lifting) all_fail.simps(1) append_Nil list.inject neq_Nil_conv option.inject
          append_eq_Cons_conv)
  next
    case (Inl e)
    have l: "fst (baudLoop (a # rates) s) = fst (baudLoop rates s')" using t Inl by simp
    have "(\<exists>pre post. a # rates = pre @ b # post \<and> all_fail pre s \<and> completes b (after_attempts pre s))
        \<longleftrightarrow> (\<exists>pre post. rates = pre @ b # post \<and> all_fail pre s' \<and> completes b (after_attempts pre s'))"
    proof
      assume "\<exists>pre post. a # rates = pre @ b # post \<and> all_fail pre s \<and> completes b (after_attempts pre s)"
      then obtain pre post where h: "a # rates = pre @ b # post" "all_fail pre s" "completes b (after_attempts pre s)"
        by blast
      have "pre \<noteq> []"
      proof
        assume "pre = []"
        then have "a = b" "completes b s" using h by (simp_all add: after_attempts_def)
        then show False using t Inl by (simp add: completes_def)
      qed
      then obtain pre' where pre: "pre = a # pre'" using h(1) by (cases pre) auto
      then have "rates = pre' @ b # post \<and> all_fail pre' s' \<and> completes b (after_attempts pre' s')"
        using h t by (simp add: after_attempts_def)
      then show "\<exists>pre post. rates = pre @ b # post \<and> all_fail pre s' \<and> completes b (after_attempts pre s')"
        by blast
    next
      assume "\<exists>pre post. rates = pre @ b # post \<and> all_fail pre s' \<and> completes b (after_attempts pre s')"
      then obtain pre post where h: "rates = pre @ b # post" "all_fail pre s'" "completes b (after_attempts pre s')"
        by blast
      then have "a # rates = (a # pre) @ b # post \<and> all_fail (a # pre) s \<and> completes b (after_attempts (a # pre) s)"
        using t Inl by (simp add: after_attempts_def)
      then show "\<exists>pre post. a # rates = pre @ b # post \<and> all_fail pre s \<and> completes b (after_attempts pre s)"
        by blast
    qed
    then show ?thesis using l Cons.IH [of s'] by simp
  qed
qed

text \<open>
  Claim C4, amended. \<open>detectBaudRate\<close> walks the fixed list 9600, 115200, 57600, 38400,
  19200, 14400 in order. It returns \<open>null\<close> exactly when the attempt fails at every rate,
  and a rate \<open>b\<close> exactly when \<open>b\<close> is the first rate of the list whose attempt (close,
  reopen at \<open>b\<close>, one line terminator sent and a response read) ends without an
  exception or a timeout, after every earlier rate failed. The text of the response is not
  looked at.
\<close>

theorem detectBaudRate_first_completing:
  "commonBaudRates = [9600, 115200, 57600, 38400, 19200, 14400]
   \<and> (fst (detectBaudRate s) = None \<longleftrightarrow> all_fail commonBaudRates s)
   \<and> (fst (detectBaudRate s) = Some b \<longleftrightarrow>
        (\<exists>pre post. commonBaudRates = pre @ b # post \<and> all_fail pre s
            \<and> completes b (after_attempts pre s)))"
  by (simp add: detectBaudRate_def baudLoop_none baudLoop_some) (simp add: commonBaudRates_def)

text \<open>
  An instance: the board that opens at 57600 only. The attempts at 9600 and 115200 throw,
  and 57600 is returned.
\<close>

theorem detectBaudRate_first_completing_witness:
  "fst (detectBaudRate (with_port picky_port)) = Some 57600
   \<and> fst (tryBaudRate 9600 (with_port picky_port)) = Inl (Error ''NetworkError'')"
proof -
  let ?s = "with_port picky_port"
  let ?s1 = "snd (tryBaudRate 9600 ?s)"
  let ?s2 = "snd (tryBaudRate 115200 ?s1)"
  have p0: "port ?s = Some (steady_port (Some 0x2341) (Some 0x0043) None
     (\<lambda>b. if b = 57600 then None else Some (Error ''NetworkError'')) [Chunk (''ready'' @ [CR, LF])])"
    by (simp add: picky_port_def)
  have p1: "port ?s1 = port ?s" by (rule port_tryBaudRate)
  have p2: "port ?s2 = port ?s" using p1 by (simp add: port_tryBaudRate)
  have f1: "fst (tryBaudRate 9600 ?s) = Inl (Error ''NetworkError'')"
    by (simp add: tryBaudRate_steady [OF p0])
  have f2: "fst (tryBaudRate 115200 ?s1) = Inl (Error ''NetworkError'')"
    by (simp add: tryBaudRate_steady [OF p1 [unfolded p0]])
  have "fst (tryBaudRate 57600 ?s2) = fst (sendCommand [CR, LF] 500 (emit (PortOpen 57600) (emit PortClose ?s2)))"
    by (simp add: tryBaudRate_steady [OF p2 [unfolded p0]])
  also have "\<dots> = Inr ''ready''"
    using p2 [unfolded p0]
    by (simp add: sendCommand_def writable_getWriter_def writer_write_def readResponse_def
      readable_getReader_def outcome_def steady_port_def trim_def isWhiteSpace_def)
  finally have f3: "fst (tryBaudRate 57600 ?s2) = Inr ''ready''" .
  have "commonBaudRates = [9600, 115200] @ 57600 # [38400, 19200, 14400]
      \<and> all_fail [9600, 115200] ?s \<and> completes 57600 (after_attempts [9600, 115200] ?s)"
    using f1 f2 f3 by (simp add: commonBaudRates_def completes_def after_attempts_def)
  then have "fst (detectBaudRate ?s) = Some 57600"
    using detectBaudRate_first_completing [of ?s 57600] by blast
  then show ?thesis using f1 by simp
qed

text \<open>
  The claim as written fails on a board that echoes the line terminator: at each of the six
  rates the trimmed response is empty, so no rate produces a non-empty response, and
  \<open>detectBaudRate\<close> returns 9600.
\<close>

theorem detectBaudRate_accepts_empty_response:
  "fst (tryBaudRate 9600 (with_port echo_port)) = Inr []
   \<and> fst (tryBaudRate 115200 (with_port echo_port)) = Inr []
   \<and> fst (tryBaudRate 57600 (with_port echo_port)) = Inr []
   \<and> fst (tryBaudRate 38400 (with_port echo_port)) = Inr []
   \<and> fst (tryBaudRate 19200 (with_port echo_port)) = Inr []
   \<and> fst (tryBaudRate 14400 (with_port echo_port)) = Inr []
   \<and> fst (detectBaudRate (with_port echo_port)) = Some 9600"
proof -
  let ?s = "with_port echo_port"
  have p0: "port ?s = Some (steady_port (Some 0x2341) (Some 0x0043) None (\<lambda>b. None) [Chunk [CR, LF]])"
    by (simp add: echo_port_def)
  have t: "fst (tryBaudRate b ?s) = Inr []" for b
  proof -
    have "port (emit (PortOpen b) (emit PortClose ?s))
        = Some (steady_port (Some 0x2341) (Some 0x0043) None (\<lambda>b. None) [Chunk [CR, LF]])"
      using p0 by simp
    then have "fst (sendCommand [CR, LF] 500 (emit (PortOpen b) (emit PortClose ?s))) = Inr []"
      by (rule sendCommand_echo)
    then show ?thesis by (simp add: tryBaudRate_steady [OF p0])
  qed
  have "fst (detectBaudRate ?s) = Some 9600"
    using t [of 9600]
    by (cases "tryBaudRate 9600 ?s") (simp add: detectBaudRate_def commonBaudRates_def)
  then show ?thesis using t by simp
qed

subsection \<open>Observers\<close>

lemma forEach_try_log: "forEach_try cbs a calls = calls @ map (\<lambda>c. (c, a)) cbs"
  by (induction cbs arbitrary: calls) (auto split: sum.splits)

lemma count_once:
  "distinct cbs \<Longrightarrow> c \<in> set cbs \<Longrightarrow> count_list (map (\<lambda>c. (c, a)) cbs) (c, a) = 1"
  by (induction cbs) (auto simp: count_list_0_iff)

lemma set_add_distinct: "distinct xs \<Longrightarrow> distinct (set_add x xs)"
  by (simp add: set_add_def)

lemma observed_fields:
  "connectionCallbacks observed = [quiet_observer 1, throwing_observer 2, quiet_observer 3]"
  "disconnectionCallbacks observed = [quiet_observer 1, throwing_observer 2, quiet_observer 3]"
  "statusCallbacks observed_monitor = [quiet_observer 1, throwing_observer 2, quiet_observer 3]"
  "port observed = None" "reader observed = None" "writer observed = None"
  by (simp_all add: observed_def observed_monitor_def onConnection_def onDisconnection_def
      onStatusChange_def set_add_def USBDetector_def quiet_observer_def throwing_observer_def)

lemma observers_distinct:
  "distinct [quiet_observer 1 :: 'a callback, throwing_observer 2, quiet_observer 3]"
  by (simp add: quiet_observer_def throwing_observer_def)

text \<open>
  Claim C8. Each of \<open>notifyConnection\<close>, \<open>notifyDisconnection\<close> and \<open>notifyStatus\<close>
  invokes the registered observers one after the other in registration order, whichever of
  them throw; with the observers held once each, as a \<open>Set\<close> holds them, every registered
  observer is invoked exactly once per dispatch.
\<close>

theorem observers_isolated:
  "new_calls (connectionCalls s) (connectionCalls (notifyConnection model s))
      = map (\<lambda>c. (c, (model, port s))) (connectionCallbacks s)
   \<and> new_calls (disconnectionCalls s) (disconnectionCalls (notifyDisconnection s))
      = map (\<lambda>c. (c, ())) (disconnectionCallbacks s)
   \<and> new_calls (statusCalls m) (statusCalls (notifyStatus status m))
      = map (\<lambda>c. (c, status)) (statusCallbacks m)
   \<and> (distinct (connectionCallbacks s) \<longrightarrow>
        (\<forall>c \<in> set (connectionCallbacks s).
           count_list (new_calls (connectionCalls s) (connectionCalls (notifyConnection model s)))
             (c, (model, port s)) = 1))
   \<and> (distinct (disconnectionCallbacks s) \<longrightarrow>
        (\<forall>c \<in> set (disconnectionCallbacks s).
           count_list (new_calls (disconnectionCalls s) (disconnectionCalls (notifyDisconnection s)))
             (c, ()) = 1))
   \<and> (distinct (statusCallbacks m) \<longrightarrow>
        (\<forall>c \<in> set (statusCallbacks m).
           count_list (new_calls (statusCalls m) (statusCalls (notifyStatus status m)))
             (c, status) = 1))"
  by (simp add: new_calls_def notifyConnection_def notifyDisconnection_def notifyStatus_def
      forEach_try_log count_once)

text \<open>
  An instance: three observers, the second of which throws; the first and the third are
  each invoked once.
\<close>

theorem observers_isolated_witness:
  "invoke (throwing_observer 2) (''uno'', port observed) = Inl (Error ''observer failed'')
   \<and> count_list (new_calls (connectionCalls observed) (connectionCalls (notifyConnection ''uno'' observed)))
        (quiet_observer 1, (''uno'', port observed)) = 1
   \<and> count_list (new_calls (connectionCalls observed) (connectionCalls (notifyConnection ''uno'' observed)))
        (quiet_observer 3, (''uno'', port observed)) = 1
   \<and> count_list (new_calls (disconnectionCalls observed) (disconnectionCalls (notifyDisconnection observed)))
        (quiet_observer 3, ()) = 1
   \<and> count_list (new_calls (statusCalls observed_monitor) (statusCalls (notifyStatus ''connected'' observed_monitor)))
        (quiet_observer 3, ''connected'') = 1"
proof -
  have t: "invoke (throwing_observer 2) (''uno'', port observed) = Inl (Error ''observer failed'')"
    by (simp add: throwing_observer_def)
  have d: "distinct (connectionCallbacks observed)" "distinct (disconnectionCallbacks observed)"
    "distinct (statusCallbacks observed_monitor)"
    by (simp_all only: observed_fields observers_distinct)
  have m: "quiet_observer 1 \<in> set (connectionCallbacks observed)"
    "quiet_observer 3 \<in> set (connectionCallbacks observed)"
    "quiet_observer 3 \<in> set (disconnectionCallbacks observed)"
    "quiet_observer 3 \<in> set (statusCallbacks observed_monitor)"
    by (simp_all add: observed_fields)
  show ?thesis
    using observers_isolated [of observed "''uno''" observed_monitor "''connected''"] t d m by blast
qed

subsection \<open>Disconnecting\<close>

lemma releaseReader_fields [simp]:
  "reader (releaseReader s) = None" "port (releaseReader s) = port s"
  "writer (releaseReader s) = writer s"
  "disconnectionCallbacks (releaseReader s) = disconnectionCallbacks s"
  "disconnectionCalls (releaseReader s) = disconnectionCalls s"
  by (simp_all add: releaseReader_def emit_def)

lemma releaseWriter_fields [simp]:
  "writer (releaseWriter s) = None" "port (releaseWriter s) = port s"
  "reader (releaseWriter s) = reader s"
  "disconnectionCallbacks (releaseWriter s) = disconnectionCallbacks s"
  "disconnectionCalls (releaseWriter s) = disconnectionCalls s"
  by (simp_all add: releaseWriter_def emit_def)




end
